theory Spec2Isabelle
  imports Main
begin

section \<open>Tebak Angka: the number-guessing game of game\_tebak.py\<close>

text \<open>
  The program is a Flask application with three routes over one per-player session
  dictionary. The session holds at most the four keys \<open>secret\<close>, \<open>attempts\<close>,
  \<open>history\<close> and \<open>finished\<close>; a key that is absent is \<open>None\<close> here. Each handler
  is a function from the session before the request to the outcome of the request (a
  response, or the exception that escapes the handler) and the session after it.
\<close>

subsection \<open>Configuration\<close>

definition MIN_NUM :: int where
  "MIN_NUM = 1"

definition MAX_NUM :: int where
  "MAX_NUM = 100"

definition MAX_ATTEMPTS :: int where
  "MAX_ATTEMPTS = 10"

subsection \<open>The session and the responses\<close>

record session =
  secret :: "int option"
  attempts :: "int option"
  history :: "int list option"
  finished :: "bool option"

definition empty_session :: session where
  "empty_session = \<lparr>secret = None, attempts = None, history = None, finished = None\<rparr>"

text \<open>
  The keyword arguments every call of \<open>render_template_string\<close> passes to the
  template. \<open>session.get(k)\<close> is \<open>None\<close> for an absent key, so the secret and the
  history are optional here too.
\<close>

record template_args =
  t_remaining :: int
  t_message :: "string option"
  t_alert_type :: string
  t_finished :: bool
  t_secret :: "int option"
  t_history :: "int list option"

datatype response = Redirect string | Render template_args

datatype py_error = KeyError

type_synonym outcome = "(py_error + response) \<times> session"

definition url_for_index :: string where
  "url_for_index = ''/''"

subsection \<open>Library functions the handlers call\<close>

text \<open>
  \<open>random.randint(a, b)\<close> returns some \<open>N\<close> with \<open>a \<le> N \<le> b\<close>. The generator's
  next raw output is the argument \<open>rnd\<close>; every value of the range is reached by some
  \<open>rnd\<close>.
\<close>

definition randint :: "int \<Rightarrow> int \<Rightarrow> nat \<Rightarrow> int" where
  "randint a b rnd = a + int (rnd mod nat (b - a + 1))"

text \<open>
  \<open>str.strip()\<close> removes leading and trailing whitespace. The form field is taken
  to be a string of ASCII characters; the ASCII characters Python counts as whitespace
  are the codes 9 to 13 (tab, line feed, vertical tab, form feed, carriage return), the
  separators 28 to 31, and the space.
\<close>

definition is_space :: "char \<Rightarrow> bool" where
  "is_space c = (let n = (of_char c :: nat) in (9 \<le> n \<and> n \<le> 13) \<or> (28 \<le> n \<and> n \<le> 32))"

definition strip :: "string \<Rightarrow> string" where
  "strip s = rev (dropWhile is_space (rev (dropWhile is_space s)))"

text \<open>
  \<open>int(s)\<close> on a string: surrounding whitespace is ignored, then an optional sign,
  then decimal digits, where single underscores may separate digits. Anything else
  raises \<open>ValueError\<close>, which is \<open>None\<close> here. Two things of the interpreter are
  outside this function: decimal digits and whitespace beyond ASCII, which \<open>int\<close>
  accepts too, and the limit on the number of digits (4300 by default) that recent
  interpreters enforce with a \<open>ValueError\<close>. The handler looks at the outcome of
  \<open>int\<close> only, and the properties below are stated on that outcome.
\<close>

definition digit_val :: "char \<Rightarrow> nat option" where
  "digit_val c = (let n = (of_char c :: nat) in if 48 \<le> n \<and> n \<le> 57 then Some (n - 48) else None)"

fun parse_digits :: "nat \<Rightarrow> string \<Rightarrow> nat option" where
  "parse_digits acc [] = Some acc"
| "parse_digits acc [c] =
     (case digit_val c of None \<Rightarrow> None | Some v \<Rightarrow> Some (acc * 10 + v))"
| "parse_digits acc (c # d # ds) =
     (if c = CHR ''_'' then
        (case digit_val d of None \<Rightarrow> None | Some v \<Rightarrow> parse_digits (acc * 10 + v) ds)
      else
        (case digit_val c of None \<Rightarrow> None | Some v \<Rightarrow> parse_digits (acc * 10 + v) (d # ds)))"

definition parse_nat :: "string \<Rightarrow> nat option" where
  "parse_nat s =
     (case s of [] \<Rightarrow> None
      | c # cs \<Rightarrow> (case digit_val c of None \<Rightarrow> None | Some v \<Rightarrow> parse_digits v cs))"

definition py_int :: "string \<Rightarrow> int option" where
  "py_int s =
     (case strip s of [] \<Rightarrow> None
      | c # cs \<Rightarrow>
          if c = CHR ''-'' then map_option (\<lambda>n. - int n) (parse_nat cs)
          else if c = CHR ''+'' then map_option int (parse_nat cs)
          else map_option int (parse_nat (c # cs)))"

text \<open>The decimal text an f-string puts in place of an integer.\<close>

fun str_nat :: "nat \<Rightarrow> string" where
  "str_nat n =
     (if n < 10 then [char_of (48 + n)]
      else str_nat (n div 10) @ [char_of (48 + n mod 10)])"

definition str_int :: "int \<Rightarrow> string" where
  "str_int i = (if i < 0 then CHR ''-'' # str_nat (nat (- i)) else str_nat (nat i))"

text \<open>
  \<open>request.form.get(k, default)\<close>: the submitted form may lack the field, which is
  \<open>None\<close> here.
\<close>

definition form_get :: "string option \<Rightarrow> string \<Rightarrow> string" where
  "form_get field dflt = (case field of None \<Rightarrow> dflt | Some v \<Rightarrow> v)"

subsection \<open>The handlers\<close>

definition init_game :: "nat \<Rightarrow> session \<Rightarrow> session" where
  "init_game rnd s =
     s\<lparr>secret := Some (randint MIN_NUM MAX_NUM rnd),
       attempts := Some 0,
       history := Some [],
       finished := Some False\<rparr>"

text \<open>\<open>session.get('attempts', 0)\<close> and \<open>session.get('finished', False)\<close>.\<close>

definition get_attempts :: "session \<Rightarrow> int" where
  "get_attempts s = (case attempts s of None \<Rightarrow> 0 | Some a \<Rightarrow> a)"

definition get_finished :: "session \<Rightarrow> bool" where
  "get_finished s = (case finished s of None \<Rightarrow> False | Some b \<Rightarrow> b)"

definition index :: "nat \<Rightarrow> session \<Rightarrow> outcome" where
  "index rnd s0 =
     (let s = (if secret s0 = None then init_game rnd s0 else s0);
          remaining = MAX_ATTEMPTS - get_attempts s
      in (Inr (Render \<lparr>t_remaining = remaining,
                       t_message = None,
                       t_alert_type = ''info'',
                       t_finished = get_finished s,
                       t_secret = secret s,
                       t_history = history s\<rparr>), s))"

text \<open>
  The two validation failures render the same page, apart from the message;
  \<open>session['attempts']\<close> raises \<open>KeyError\<close> when the key is absent.
\<close>

definition warning :: "string \<Rightarrow> session \<Rightarrow> outcome" where
  "warning msg s =
     (case attempts s of
        None \<Rightarrow> (Inl KeyError, s)
      | Some a \<Rightarrow>
          (Inr (Render \<lparr>t_remaining = MAX_ATTEMPTS - a,
                        t_message = Some msg,
                        t_alert_type = ''warning'',
                        t_finished = False,
                        t_secret = secret s,
                        t_history = history s\<rparr>), s))"

definition guess :: "string option \<Rightarrow> nat \<Rightarrow> session \<Rightarrow> outcome" where
  "guess form rnd s0 =
     (let s = (if secret s0 = None then init_game rnd s0 else s0) in
      if get_finished s then (Inr (Redirect url_for_index), s)
      else
        let guess_raw = strip (form_get form []) in
        (case py_int guess_raw of
           None \<Rightarrow> warning ''Masukkan angka valid.'' s
         | Some g \<Rightarrow>
             if g < MIN_NUM \<or> g > MAX_NUM then
               warning (''Angka harus antara '' @ str_int MIN_NUM @ '' dan ''
                          @ str_int MAX_NUM @ ''.'') s
             else
               let n = get_attempts s + 1;
                   s1 = s\<lparr>attempts := Some n\<rparr>
               in (case history s1 of
                     None \<Rightarrow> (Inl KeyError, s1)
                   | Some h \<Rightarrow>
                       let s2 = s1\<lparr>history := Some (h @ [g])\<rparr> in
                       (case secret s2 of
                          None \<Rightarrow> (Inl KeyError, s2)
                        | Some x \<Rightarrow>
                            if g = x then
                              (Inr (Render \<lparr>t_remaining = MAX_ATTEMPTS - n,
                                            t_message = Some (''Selamat! Tebakan Anda benar dalam ''
                                                               @ str_int n @ '' percobaan.''),
                                            t_alert_type = ''success'',
                                            t_finished = True,
                                            t_secret = Some x,
                                            t_history = history s2\<rparr>),
                               s2\<lparr>finished := Some True\<rparr>)
                            else if n \<ge> MAX_ATTEMPTS then
                              (Inr (Render \<lparr>t_remaining = 0,
                                            t_message = Some ''Maaf, Anda kehabisan tebakan. Game berakhir.'',
                                            t_alert_type = ''danger'',
                                            t_finished = True,
                                            t_secret = Some x,
                                            t_history = history s2\<rparr>),
                               s2\<lparr>finished := Some True\<rparr>)
                            else
                              let hint = (if g < x then ''Terlalu kecil.'' else ''Terlalu besar.'');
                                  remaining = MAX_ATTEMPTS - n
                              in (Inr (Render \<lparr>t_remaining = remaining,
                                               t_message = Some (hint @ '' Sisa tebakan: ''
                                                                  @ str_int remaining @ ''.''),
                                               t_alert_type = ''info'',
                                               t_finished = False,
                                               t_secret = Some x,
                                               t_history = history s2\<rparr>),
                                  s2)))))"

definition reset :: "nat \<Rightarrow> session \<Rightarrow> outcome" where
  "reset rnd s = (Inr (Redirect url_for_index), init_game rnd s)"

subsection \<open>Requests and their sequences\<close>

text \<open>
  A request names its route and carries the \<open>guess\<close> form field where the route reads
  it. A player's session lives through a sequence of requests, each with the output the
  random generator would give if the handler drew a secret. \<open>run\<close> hands the session
  each handler leaves to the next request and collects the outcomes.
\<close>

datatype request = Get_index | Post_guess "string option" | Post_reset

fun handle :: "request \<Rightarrow> nat \<Rightarrow> session \<Rightarrow> outcome" where
  "handle Get_index rnd s = index rnd s"
| "handle (Post_guess form) rnd s = guess form rnd s"
| "handle Post_reset rnd s = reset rnd s"

fun run :: "(request \<times> nat) list \<Rightarrow> session \<Rightarrow> (py_error + response) list \<times> session" where
  "run [] s = ([], s)"
| "run ((rq, rnd) # rest) s =
     (let (r, s') = handle rq rnd s;
          (rs, s'') = run rest s'
      in (r # rs, s''))"

text \<open>
  The GameSession of the data model: a session in which all four keys are present.
\<close>

definition game :: "int \<Rightarrow> int \<Rightarrow> int list \<Rightarrow> bool \<Rightarrow> session" where
  "game x a h f = \<lparr>secret = Some x, attempts = Some a, history = Some h, finished = Some f\<rparr>"

text \<open>
  The number a submitted form carries when it passes both validations of \<open>guess\<close>:
  it parses as an integer, and the integer is in the range.
\<close>

definition valid_guess :: "string option \<Rightarrow> int option" where
  "valid_guess form =
     (case py_int (strip (form_get form [])) of
        None \<Rightarrow> None
      | Some g \<Rightarrow> if g < MIN_NUM \<or> g > MAX_NUM then None else Some g)"

text \<open>
  The invariant of a running game: all four keys are present, the counter is between
  zero and the maximum, and it is below the maximum while the game is open.
\<close>

definition session_inv :: "session \<Rightarrow> bool" where
  "session_inv s =
     (case (secret s, attempts s, history s, finished s) of
        (Some x, Some a, Some h, Some f) \<Rightarrow>
          0 \<le> a \<and> a \<le> MAX_ATTEMPTS \<and> (f \<or> a < MAX_ATTEMPTS)
      | _ \<Rightarrow> False)"

section \<open>Properties\<close>

subsection \<open>The library functions\<close>

lemma randint_range:
  assumes "a \<le> b"
  shows "a \<le> randint a b rnd \<and> randint a b rnd \<le> b"
proof -
  from assms have pos: "0 < nat (b - a + 1)" by simp
  have "rnd mod nat (b - a + 1) < nat (b - a + 1)"
    using pos by (rule mod_less_divisor)
  then have "int (rnd mod nat (b - a + 1)) < b - a + 1"
    using assms by linarith
  then show ?thesis by (simp add: randint_def)
qed

lemma randint_onto:
  assumes "a \<le> n" and "n \<le> b"
  shows "randint a b (nat (n - a)) = n"
  using assms by (simp add: randint_def)

subsection \<open>One guess on a running game\<close>

lemma init_game_eq: "init_game rnd s = game (randint MIN_NUM MAX_NUM rnd) 0 [] False"
  by (simp add: init_game_def game_def)

lemma guess_game_valid:
  assumes "py_int (strip (form_get form [])) = Some g" and "MIN_NUM \<le> g" and "g \<le> MAX_NUM"
  shows "guess form rnd (game x a h False) =
     (if g = x then
        (Inr (Render \<lparr>t_remaining = MAX_ATTEMPTS - (a + 1),
                      t_message = Some (''Selamat! Tebakan Anda benar dalam ''
                                         @ str_int (a + 1) @ '' percobaan.''),
                      t_alert_type = ''success'',
                      t_finished = True,
                      t_secret = Some x,
                      t_history = Some (h @ [g])\<rparr>),
         game x (a + 1) (h @ [g]) True)
      else if a + 1 \<ge> MAX_ATTEMPTS then
        (Inr (Render \<lparr>t_remaining = 0,
                      t_message = Some ''Maaf, Anda kehabisan tebakan. Game berakhir.'',
                      t_alert_type = ''danger'',
                      t_finished = True,
                      t_secret = Some x,
                      t_history = Some (h @ [g])\<rparr>),
         game x (a + 1) (h @ [g]) True)
      else
        (Inr (Render \<lparr>t_remaining = MAX_ATTEMPTS - (a + 1),
                      t_message = Some ((if g < x then ''Terlalu kecil.'' else ''Terlalu besar.'')
                                         @ '' Sisa tebakan: ''
                                         @ str_int (MAX_ATTEMPTS - (a + 1)) @ ''.''),
                      t_alert_type = ''info'',
                      t_finished = False,
                      t_secret = Some x,
                      t_history = Some (h @ [g])\<rparr>),
         game x (a + 1) (h @ [g]) False))"
  using assms
  by (simp add: guess_def game_def get_finished_def get_attempts_def Let_def)

lemma guess_game_invalid:
  assumes "py_int (strip (form_get form [])) = None \<or>
           (\<exists>g. py_int (strip (form_get form [])) = Some g \<and> (g < MIN_NUM \<or> g > MAX_NUM))"
  shows "guess form rnd (game x a h False) =
     (Inr (Render \<lparr>t_remaining = MAX_ATTEMPTS - a,
                   t_message = Some (if py_int (strip (form_get form [])) = None
                                     then ''Masukkan angka valid.''
                                     else ''Angka harus antara '' @ str_int MIN_NUM @ '' dan ''
                                            @ str_int MAX_NUM @ ''.''),
                   t_alert_type = ''warning'',
                   t_finished = False,
                   t_secret = Some x,
                   t_history = Some h\<rparr>),
      game x a h False)"
  using assms
  by (auto simp add: guess_def game_def get_finished_def warning_def Let_def)

lemma guess_finished:
  assumes "secret s \<noteq> None" and "finished s = Some True"
  shows "guess form rnd s = (Inr (Redirect url_for_index), s)"
proof -
  from assms(1) obtain x where "secret s = Some x" by auto
  with assms(2) show ?thesis by (simp add: guess_def get_finished_def)
qed

lemma guess_secret:
  assumes "secret s = Some x"
  shows "secret (snd (guess form rnd s)) = Some x"
  using assms
  by (simp add: guess_def warning_def Let_def split: option.splits)

lemma index_existing:
  assumes "secret s \<noteq> None"
  shows "index rnd s =
     (Inr (Render \<lparr>t_remaining = MAX_ATTEMPTS - get_attempts s,
                   t_message = None,
                   t_alert_type = ''info'',
                   t_finished = get_finished s,
                   t_secret = secret s,
                   t_history = history s\<rparr>), s)"
proof -
  from assms obtain x where "secret s = Some x" by auto
  then show ?thesis by (simp add: index_def Let_def)
qed

lemma valid_guessD:
  assumes "valid_guess form = Some g"
  shows "py_int (strip (form_get form [])) = Some g \<and> MIN_NUM \<le> g \<and> g \<le> MAX_NUM"
  using assms by (auto simp: valid_guess_def split: option.splits if_splits)

lemma valid_guess_NoneD:
  assumes "valid_guess form = None"
  shows "py_int (strip (form_get form [])) = None \<or>
         (\<exists>g. py_int (strip (form_get form [])) = Some g \<and> (g < MIN_NUM \<or> g > MAX_NUM))"
  using assms by (auto simp: valid_guess_def split: option.splits if_splits)

subsection \<open>Sequences of requests\<close>

lemma run_Cons:
  "run ((rq, rnd) # rest) s =
     (fst (handle rq rnd s) # fst (run rest (snd (handle rq rnd s))),
      snd (run rest (snd (handle rq rnd s))))"
  by (simp add: Let_def split: prod.splits)

lemma length_run: "length (fst (run reqs s)) = length reqs"
proof (induction reqs arbitrary: s)
  case Nil
  then show ?case by simp
next
  case (Cons p reqs)
  obtain rq rnd where "p = (rq, rnd)" by (cases p)
  then show ?case using Cons.IH by (simp only: run_Cons) simp
qed

text \<open>
  Wrong guesses up to the maximum: with the counter at \<open>a\<close>, the wrong valid guess
  number \<open>MAX_ATTEMPTS - a\<close> ends the game.
\<close>

lemma run_wrong_guesses:
  assumes "a < MAX_ATTEMPTS"
    and "length fs = nat (MAX_ATTEMPTS - a)"
    and "\<forall>f \<in> set fs. \<exists>g. valid_guess f = Some g \<and> g \<noteq> x"
  shows "snd (run (map (\<lambda>f. (Post_guess f, rnd)) fs) (game x a h False))
           = game x MAX_ATTEMPTS (h @ map (the \<circ> valid_guess) fs) True
       \<and> last (fst (run (map (\<lambda>f. (Post_guess f, rnd)) fs) (game x a h False)))
           = Inr (Render \<lparr>t_remaining = 0,
                         t_message = Some ''Maaf, Anda kehabisan tebakan. Game berakhir.'',
                         t_alert_type = ''danger'',
                         t_finished = True,
                         t_secret = Some x,
                         t_history = Some (h @ map (the \<circ> valid_guess) fs)\<rparr>)"
  using assms
proof (induction fs arbitrary: a h)
  case Nil
  then show ?case by simp
next
  case (Cons f fs)
  from Cons.prems(3) obtain g where g: "valid_guess f = Some g" "g \<noteq> x" by auto
  from valid_guessD[OF g(1)]
  have v: "py_int (strip (form_get f [])) = Some g" "MIN_NUM \<le> g" "g \<le> MAX_NUM"
    by simp_all
  note step = guess_game_valid[OF v, of rnd x a h]
  show ?case
  proof (cases "a + 1 \<ge> MAX_ATTEMPTS")
    case True
    from True Cons.prems(1) have "MAX_ATTEMPTS - a = 1" by linarith
    with Cons.prems(2) have "fs = []" by simp
    moreover from True Cons.prems(1) have "a + 1 = MAX_ATTEMPTS" by simp
    ultimately show ?thesis using step g True by (simp add: run_Cons del: run.simps(2))
  next
    case False
    then have lt: "a + 1 < MAX_ATTEMPTS" by simp
    from Cons.prems(2) have len: "length fs = nat (MAX_ATTEMPTS - (a + 1))" by simp
    from Cons.prems(3) have rest: "\<forall>f \<in> set fs. \<exists>g. valid_guess f = Some g \<and> g \<noteq> x" by simp
    note ih = Cons.IH[OF lt len rest, of "h @ [g]"]
    from len lt have "fs \<noteq> []" by auto
    then have ne: "fst (run (map (\<lambda>f. (Post_guess f, rnd)) fs) (game x (a + 1) (h @ [g]) False)) \<noteq> []"
      using length_run[of "map (\<lambda>f. (Post_guess f, rnd)) fs" "game x (a + 1) (h @ [g]) False"]
      by auto
    show ?thesis using step g False ih ne
      by (simp add: run_Cons del: run.simps(2))
  qed
qed

subsection \<open>The invariant\<close>

lemma session_inv_iff:
  "session_inv s \<longleftrightarrow>
     (\<exists>x a h f. s = game x a h f \<and> 0 \<le> a \<and> a \<le> MAX_ATTEMPTS \<and> (\<not> f \<longrightarrow> a < MAX_ATTEMPTS))"
proof
  assume inv: "session_inv s"
  then obtain x a h f where k: "secret s = Some x" "attempts s = Some a"
      "history s = Some h" "finished s = Some f"
    by (auto simp: session_inv_def split: option.splits)
  then have "s = game x a h f" by (cases s) (simp add: game_def)
  moreover from inv k have "0 \<le> a \<and> a \<le> MAX_ATTEMPTS \<and> (\<not> f \<longrightarrow> a < MAX_ATTEMPTS)"
    by (auto simp: session_inv_def)
  ultimately show "\<exists>x a h f. s = game x a h f \<and> 0 \<le> a \<and> a \<le> MAX_ATTEMPTS \<and> (\<not> f \<longrightarrow> a < MAX_ATTEMPTS)"
    by blast
next
  assume "\<exists>x a h f. s = game x a h f \<and> 0 \<le> a \<and> a \<le> MAX_ATTEMPTS \<and> (\<not> f \<longrightarrow> a < MAX_ATTEMPTS)"
  then show "session_inv s" by (auto simp: session_inv_def game_def)
qed

lemma session_invI:
  assumes "0 \<le> a" and "a \<le> MAX_ATTEMPTS" and "\<not> f \<longrightarrow> a < MAX_ATTEMPTS"
  shows "session_inv (game x a h f)"
  unfolding session_inv_iff using assms by blast

lemma inv_init_game: "session_inv (init_game rnd s)"
  unfolding init_game_eq by (rule session_invI) (simp_all add: MAX_ATTEMPTS_def)

lemma inv_guess:
  assumes "session_inv s"
  shows "session_inv (snd (guess form rnd s))"
proof -
  from assms obtain x a h f where s: "s = game x a h f" and a: "0 \<le> a" "a \<le> MAX_ATTEMPTS"
    and fa: "\<not> f \<longrightarrow> a < MAX_ATTEMPTS"
    unfolding session_inv_iff by blast
  show ?thesis
  proof (cases f)
    case True
    then have "guess form rnd s = (Inr (Redirect url_for_index), s)"
      using s by (intro guess_finished) (simp_all add: game_def)
    then show ?thesis using assms by simp
  next
    case False
    with fa have lt: "a < MAX_ATTEMPTS" by simp
    show ?thesis
    proof (cases "valid_guess form")
      case None
      from guess_game_invalid[OF valid_guess_NoneD[OF None], of rnd x a h] show ?thesis
        using assms s False by simp
    next
      case (Some g)
      from valid_guessD[OF Some]
      have v: "py_int (strip (form_get form [])) = Some g" "MIN_NUM \<le> g" "g \<le> MAX_NUM"
        by simp_all
      from guess_game_valid[OF v, of rnd x a h]
      have "snd (guess form rnd s) = game x (a + 1) (h @ [g]) (g = x \<or> a + 1 \<ge> MAX_ATTEMPTS)"
        using s False by auto
      moreover have "session_inv (game x (a + 1) (h @ [g]) (g = x \<or> a + 1 \<ge> MAX_ATTEMPTS))"
        using a lt by (intro session_invI) auto
      ultimately show ?thesis by simp
    qed
  qed
qed

lemma inv_handle:
  assumes "session_inv s"
  shows "session_inv (snd (handle rq rnd s))"
proof (cases rq)
  case Get_index
  from assms have "secret s \<noteq> None" by (auto simp: session_inv_iff game_def)
  from index_existing[OF this] show ?thesis using Get_index assms by simp
next
  case (Post_guess form)
  then show ?thesis using inv_guess[OF assms] by simp
next
  case Post_reset
  then show ?thesis by (simp add: reset_def inv_init_game)
qed

lemma inv_run:
  assumes "session_inv s"
  shows "session_inv (snd (run reqs s))"
  using assms
proof (induction reqs arbitrary: s)
  case Nil
  then show ?case by simp
next
  case (Cons p reqs)
  obtain rq rnd where p: "p = (rq, rnd)" by (cases p)
  from Cons.IH[OF inv_handle[OF Cons.prems, of rq rnd]]
  show ?case using p by (simp add: run_Cons del: run.simps(2))
qed

text \<open>
  No request on a running game raises: the \<open>KeyError\<close> branches of the handlers need
  a session with a secret and without one of the other keys, which no handler leaves.
\<close>

lemma handle_no_error:
  assumes "session_inv s"
  shows "\<exists>p. fst (handle rq rnd s) = Inr p"
proof (cases rq)
  case Get_index
  then show ?thesis by (simp add: index_def Let_def)
next
  case (Post_guess form)
  from assms obtain x a h f where s: "s = game x a h f"
    unfolding session_inv_iff by blast
  show ?thesis
  proof (cases f)
    case True
    then have "guess form rnd s = (Inr (Redirect url_for_index), s)"
      using s by (intro guess_finished) (simp_all add: game_def)
    then show ?thesis using Post_guess by simp
  next
    case False
    show ?thesis
    proof (cases "valid_guess form")
      case None
      from guess_game_invalid[OF valid_guess_NoneD[OF None], of rnd x a h] show ?thesis
        using Post_guess s False by simp
    next
      case (Some g)
      from valid_guessD[OF Some]
      have v: "py_int (strip (form_get form [])) = Some g" "MIN_NUM \<le> g" "g \<le> MAX_NUM"
        by simp_all
      from guess_game_valid[OF v, of rnd x a h] show ?thesis
        using Post_guess s False by (simp split: if_splits)
    qed
  qed
next
  case Post_reset
  then show ?thesis by (simp add: reset_def)
qed

lemma run_no_error:
  assumes "session_inv s"
  shows "\<forall>r \<in> set (fst (run reqs s)). \<exists>p. r = Inr p"
  using assms
proof (induction reqs arbitrary: s)
  case Nil
  then show ?case by simp
next
  case (Cons q reqs)
  obtain rq rnd where q: "q = (rq, rnd)" by (cases q)
  from Cons.IH[OF inv_handle[OF Cons.prems, of rq rnd]] handle_no_error[OF Cons.prems, of rq rnd]
  show ?case using q by (simp add: run_Cons del: run.simps(2))
qed

section \<open>The claims of the specification\<close>

text \<open>
  Throughout, \<open>game x a h f\<close> is a session state: secret \<open>x\<close>, \<open>a\<close> attempts, history
  \<open>h\<close>, finished flag \<open>f\<close>. The submitted form is \<open>form\<close>, and
  \<open>py_int (strip (form_get form []))\<close> is what the handler parses from it.
\<close>

text \<open>
  C1. In a session that is not finished, a guess equal to the secret sets
  \<open>finished\<close> to true and returns the success page, whatever the attempt counter
  \<open>a\<close> is: also on the tenth attempt (\<open>a = 9\<close>), where the comparison with the
  secret comes before the test for exhaustion. The secret is in the range of the game,
  as the data model has it, so that the guess passes the range check.
\<close>

theorem guess_secret_finishes:
  assumes "py_int (strip (form_get form [])) = Some x"
    and "MIN_NUM \<le> x" and "x \<le> MAX_NUM"
  shows "guess form rnd (game x a h False) =
     (Inr (Render \<lparr>t_remaining = MAX_ATTEMPTS - (a + 1),
                   t_message = Some (''Selamat! Tebakan Anda benar dalam ''
                                      @ str_int (a + 1) @ '' percobaan.''),
                   t_alert_type = ''success'',
                   t_finished = True,
                   t_secret = Some x,
                   t_history = Some (h @ [x])\<rparr>),
      game x (a + 1) (h @ [x]) True)"
  using guess_game_valid[OF assms, of rnd x a h] by simp

theorem guess_secret_finishes_witness:
  "py_int (strip (form_get (Some ''42'') [])) = Some 42 \<and> MIN_NUM \<le> 42 \<and> 42 \<le> MAX_NUM
   \<and> guess (Some ''42'') 0 (game 42 9 [1, 2, 3, 4, 5, 6, 7, 8, 9] False) =
     (Inr (Render \<lparr>t_remaining = 0,
                   t_message = Some ''Selamat! Tebakan Anda benar dalam 10 percobaan.'',
                   t_alert_type = ''success'',
                   t_finished = True,
                   t_secret = Some 42,
                   t_history = Some [1, 2, 3, 4, 5, 6, 7, 8, 9, 42]\<rparr>),
      game 42 10 [1, 2, 3, 4, 5, 6, 7, 8, 9, 42] True)"
proof -
  have p: "py_int (strip (form_get (Some ''42'') [])) = Some 42" by code_simp
  have lo: "MIN_NUM \<le> 42" by (simp add: MIN_NUM_def)
  have hi: "42 \<le> MAX_NUM" by (simp add: MAX_NUM_def)
  have s: "str_int 10 = ''10''" by code_simp
  show ?thesis
    using p lo hi guess_secret_finishes[OF p lo hi, of 0 9 "[1, 2, 3, 4, 5, 6, 7, 8, 9]"]
    by (simp add: MAX_ATTEMPTS_def s)
qed

text \<open>
  C2. The attempt counter counts the valid guesses of a session. In a session that is
  not finished, with the counter at \<open>a\<close>, let \<open>MAX_ATTEMPTS - a\<close> further valid guesses
  be submitted, none equal to the secret, so that exactly ten valid guesses have been
  made (from a fresh game, \<open>a = 0\<close>, these are ten guesses). Then the session is
  finished, the counter is at the maximum, and the last of these guesses is answered
  with the exhaustion page, which shows 0 remaining attempts.
\<close>

theorem ten_wrong_guesses_exhaust:
  assumes "a < MAX_ATTEMPTS"
    and "length fs = nat (MAX_ATTEMPTS - a)"
    and "\<forall>f \<in> set fs. \<exists>g. valid_guess f = Some g \<and> g \<noteq> x"
  shows "snd (run (map (\<lambda>f. (Post_guess f, rnd)) fs) (game x a h False))
           = game x MAX_ATTEMPTS (h @ map (the \<circ> valid_guess) fs) True
       \<and> last (fst (run (map (\<lambda>f. (Post_guess f, rnd)) fs) (game x a h False)))
           = Inr (Render \<lparr>t_remaining = 0,
                         t_message = Some ''Maaf, Anda kehabisan tebakan. Game berakhir.'',
                         t_alert_type = ''danger'',
                         t_finished = True,
                         t_secret = Some x,
                         t_history = Some (h @ map (the \<circ> valid_guess) fs)\<rparr>)"
  using run_wrong_guesses[OF assms] .

theorem ten_wrong_guesses_exhaust_witness:
  "(0::int) < MAX_ATTEMPTS
   \<and> length [Some ''1'', Some ''2'', Some ''3'', Some ''4'', Some ''5'',
             Some ''6'', Some ''7'', Some ''8'', Some ''9'', Some ''10'']
       = nat (MAX_ATTEMPTS - 0)
   \<and> snd (run (map (\<lambda>f. (Post_guess f, 0))
                 [Some ''1'', Some ''2'', Some ''3'', Some ''4'', Some ''5'',
                  Some ''6'', Some ''7'', Some ''8'', Some ''9'', Some ''10''])
            (game 42 0 [] False))
       = game 42 10 [1, 2, 3, 4, 5, 6, 7, 8, 9, 10] True
   \<and> last (fst (run (map (\<lambda>f. (Post_guess f, 0))
                       [Some ''1'', Some ''2'', Some ''3'', Some ''4'', Some ''5'',
                        Some ''6'', Some ''7'', Some ''8'', Some ''9'', Some ''10''])
                  (game 42 0 [] False)))
       = Inr (Render \<lparr>t_remaining = 0,
                     t_message = Some ''Maaf, Anda kehabisan tebakan. Game berakhir.'',
                     t_alert_type = ''danger'',
                     t_finished = True,
                     t_secret = Some 42,
                     t_history = Some [1, 2, 3, 4, 5, 6, 7, 8, 9, 10]\<rparr>)"
proof -
  let ?fs = "[Some ''1'', Some ''2'', Some ''3'', Some ''4'', Some ''5'',
              Some ''6'', Some ''7'', Some ''8'', Some ''9'', Some ''10'']"
  have v: "valid_guess (Some ''1'') = Some 1" "valid_guess (Some ''2'') = Some 2"
    "valid_guess (Some ''3'') = Some 3" "valid_guess (Some ''4'') = Some 4"
    "valid_guess (Some ''5'') = Some 5" "valid_guess (Some ''6'') = Some 6"
    "valid_guess (Some ''7'') = Some 7" "valid_guess (Some ''8'') = Some 8"
    "valid_guess (Some ''9'') = Some 9" "valid_guess (Some ''10'') = Some 10"
    by code_simp+
  have a: "(0::int) < MAX_ATTEMPTS" by (simp add: MAX_ATTEMPTS_def)
  have l: "length ?fs = nat (MAX_ATTEMPTS - 0)" by (simp add: MAX_ATTEMPTS_def)
  have w: "\<forall>f \<in> set ?fs. \<exists>g. valid_guess f = Some g \<and> g \<noteq> 42" by (simp add: v)
  show ?thesis
    using a l ten_wrong_guesses_exhaust[OF a l w, of 0 "[]"]
    by (simp add: v MAX_ATTEMPTS_def)
qed

text \<open>
  C3. In a session that is not finished, an input that does not parse as an integer,
  or parses to an integer outside the range, is answered with a warning page (one of
  the two validation messages, alert type \<open>warning\<close>), and the session is returned
  as it was: secret, attempts, history and finished flag are unchanged.
\<close>

theorem guess_invalid_unchanged:
  assumes "py_int (strip (form_get form [])) = None \<or>
           (\<exists>g. py_int (strip (form_get form [])) = Some g \<and> (g < MIN_NUM \<or> g > MAX_NUM))"
  shows "\<exists>msg. guess form rnd (game x a h False) =
           (Inr (Render \<lparr>t_remaining = MAX_ATTEMPTS - a,
                         t_message = Some msg,
                         t_alert_type = ''warning'',
                         t_finished = False,
                         t_secret = Some x,
                         t_history = Some h\<rparr>),
            game x a h False)
         \<and> (msg = ''Masukkan angka valid.''
            \<or> msg = ''Angka harus antara '' @ str_int MIN_NUM @ '' dan '' @ str_int MAX_NUM @ ''.'')"
  using guess_game_invalid[OF assms, of rnd x a h] by auto

theorem guess_invalid_unchanged_witness:
  "py_int (strip (form_get (Some ''abc'') [])) = None
   \<and> snd (guess (Some ''abc'') 0 (game 42 3 [10, 70, 50] False)) = game 42 3 [10, 70, 50] False
   \<and> py_int (strip (form_get (Some ''101'') [])) = Some 101 \<and> 101 > MAX_NUM
   \<and> snd (guess (Some ''101'') 0 (game 42 3 [10, 70, 50] False)) = game 42 3 [10, 70, 50] False"
proof -
  have p1: "py_int (strip (form_get (Some ''abc'') [])) = None" by code_simp
  have p2: "py_int (strip (form_get (Some ''101'') [])) = Some 101" by code_simp
  have hi: "101 > MAX_NUM" by (simp add: MAX_NUM_def)
  have h1: "py_int (strip (form_get (Some ''abc'') [])) = None \<or>
           (\<exists>g. py_int (strip (form_get (Some ''abc'') [])) = Some g \<and> (g < MIN_NUM \<or> g > MAX_NUM))"
    using p1 by simp
  have h2: "py_int (strip (form_get (Some ''101'') [])) = None \<or>
           (\<exists>g. py_int (strip (form_get (Some ''101'') [])) = Some g \<and> (g < MIN_NUM \<or> g > MAX_NUM))"
    using p2 hi by simp
  from guess_invalid_unchanged[OF h1, of 0 42 3 "[10, 70, 50]"]
  have c1: "snd (guess (Some ''abc'') 0 (game 42 3 [10, 70, 50] False)) = game 42 3 [10, 70, 50] False"
    by auto
  from guess_invalid_unchanged[OF h2, of 0 42 3 "[10, 70, 50]"]
  have c2: "snd (guess (Some ''101'') 0 (game 42 3 [10, 70, 50] False)) = game 42 3 [10, 70, 50] False"
    by auto
  show ?thesis using p1 p2 hi c1 c2 by simp
qed

text \<open>
  C4. In a session that is not finished, a valid guess \<open>g\<close> in the range increments
  the attempt counter by exactly one and appends \<open>g\<close> to the end of the history.
\<close>

theorem guess_valid_counts:
  assumes "py_int (strip (form_get form [])) = Some g"
    and "MIN_NUM \<le> g" and "g \<le> MAX_NUM"
  shows "attempts (snd (guess form rnd (game x a h False))) = Some (a + 1)
       \<and> history (snd (guess form rnd (game x a h False))) = Some (h @ [g])"
  using guess_game_valid[OF assms, of rnd x a h] by (simp add: game_def)

theorem guess_valid_counts_witness:
  "py_int (strip (form_get (Some '' 70 '') [])) = Some 70 \<and> MIN_NUM \<le> 70 \<and> 70 \<le> MAX_NUM
   \<and> attempts (snd (guess (Some '' 70 '') 0 (game 42 1 [10] False))) = Some 2
   \<and> history (snd (guess (Some '' 70 '') 0 (game 42 1 [10] False))) = Some [10, 70]"
proof -
  have p: "py_int (strip (form_get (Some '' 70 '') [])) = Some 70" by code_simp
  have lo: "MIN_NUM \<le> 70" by (simp add: MIN_NUM_def)
  have hi: "70 \<le> MAX_NUM" by (simp add: MAX_NUM_def)
  show ?thesis
    using p lo hi guess_valid_counts[OF p lo hi, of 0 42 1 "[10]"] by simp
qed

text \<open>
  C5. In a session that is not finished, a valid guess \<open>g\<close> that differs from the
  secret and does not use up the attempts (the counter after the increment is below
  the maximum) is answered with the hint "Terlalu kecil." (too low) when \<open>g\<close> is below
  the secret and "Terlalu besar." (too high) when it is above, followed by the number
  of remaining attempts; the session stays unfinished.
\<close>

theorem guess_hint:
  assumes "py_int (strip (form_get form [])) = Some g"
    and "MIN_NUM \<le> g" and "g \<le> MAX_NUM"
    and "g \<noteq> x" and "a + 1 < MAX_ATTEMPTS"
  shows "guess form rnd (game x a h False) =
     (Inr (Render \<lparr>t_remaining = MAX_ATTEMPTS - (a + 1),
                   t_message = Some ((if g < x then ''Terlalu kecil.'' else ''Terlalu besar.'')
                                      @ '' Sisa tebakan: ''
                                      @ str_int (MAX_ATTEMPTS - (a + 1)) @ ''.''),
                   t_alert_type = ''info'',
                   t_finished = False,
                   t_secret = Some x,
                   t_history = Some (h @ [g])\<rparr>),
      game x (a + 1) (h @ [g]) False)"
  using guess_game_valid[OF assms(1,2,3), of rnd x a h] assms(4,5) by simp

theorem guess_hint_witness:
  "py_int (strip (form_get (Some ''10'') [])) = Some 10 \<and> MIN_NUM \<le> 10 \<and> 10 \<le> MAX_NUM
   \<and> (10::int) \<noteq> 42 \<and> 0 + 1 < MAX_ATTEMPTS
   \<and> guess (Some ''10'') 0 (game 42 0 [] False) =
     (Inr (Render \<lparr>t_remaining = 9,
                   t_message = Some ''Terlalu kecil. Sisa tebakan: 9.'',
                   t_alert_type = ''info'',
                   t_finished = False,
                   t_secret = Some 42,
                   t_history = Some [10]\<rparr>),
      game 42 1 [10] False)
   \<and> py_int (strip (form_get (Some ''70'') [])) = Some 70 \<and> MIN_NUM \<le> 70 \<and> 70 \<le> MAX_NUM
   \<and> (70::int) \<noteq> 42 \<and> 1 + 1 < MAX_ATTEMPTS
   \<and> guess (Some ''70'') 0 (game 42 1 [10] False) =
     (Inr (Render \<lparr>t_remaining = 8,
                   t_message = Some ''Terlalu besar. Sisa tebakan: 8.'',
                   t_alert_type = ''info'',
                   t_finished = False,
                   t_secret = Some 42,
                   t_history = Some [10, 70]\<rparr>),
      game 42 2 [10, 70] False)"
proof -
  have p1: "py_int (strip (form_get (Some ''10'') [])) = Some 10" by code_simp
  have p2: "py_int (strip (form_get (Some ''70'') [])) = Some 70" by code_simp
  have lo: "MIN_NUM \<le> 10" "MIN_NUM \<le> 70" by (simp_all add: MIN_NUM_def)
  have hi: "10 \<le> MAX_NUM" "70 \<le> MAX_NUM" by (simp_all add: MAX_NUM_def)
  have ne: "(10::int) \<noteq> 42" "(70::int) \<noteq> 42" by simp_all
  have at: "0 + 1 < MAX_ATTEMPTS" "1 + 1 < MAX_ATTEMPTS" by (simp_all add: MAX_ATTEMPTS_def)
  have s: "str_int 9 = ''9''" "str_int 8 = ''8''" by code_simp+
  show ?thesis
    using p1 p2 lo hi at
      guess_hint[OF p1 lo(1) hi(1) ne(1) at(1), of 0 "[]"]
      guess_hint[OF p2 lo(2) hi(2) ne(2) at(2), of 0 "[10]"]
    by (simp add: MAX_ATTEMPTS_def s)
qed

text \<open>
  C6. Whatever the session was before, \<open>reset\<close> leaves a session whose secret is in
  the range from \<open>MIN_NUM\<close> to \<open>MAX_NUM\<close>, whose attempt counter is 0, whose history
  is empty and whose finished flag is false; it answers with a redirect to the index
  page.
\<close>

theorem reset_fresh:
  "fst (reset rnd s) = Inr (Redirect url_for_index)
   \<and> (\<exists>x. snd (reset rnd s) = game x 0 [] False \<and> MIN_NUM \<le> x \<and> x \<le> MAX_NUM)"
proof -
  have "MIN_NUM \<le> MAX_NUM" by (simp add: MIN_NUM_def MAX_NUM_def)
  from randint_range[OF this, of rnd] show ?thesis
    by (auto simp: reset_def init_game_eq)
qed

theorem reset_fresh_witness:
  "fst (reset 41 (game 7 10 [1, 2, 3, 4, 5, 6, 8, 9, 10, 11] True)) = Inr (Redirect ''/'')
   \<and> snd (reset 41 (game 7 10 [1, 2, 3, 4, 5, 6, 8, 9, 10, 11] True)) = game 42 0 [] False
   \<and> MIN_NUM \<le> 42 \<and> 42 \<le> MAX_NUM"
proof -
  let ?s = "game 7 10 [1, 2, 3, 4, 5, 6, 8, 9, 10, 11] True"
  have r: "randint MIN_NUM MAX_NUM 41 = 42" by code_simp
  have e: "snd (reset 41 ?s) = game 42 0 [] False"
    by (simp add: reset_def init_game_eq r)
  from reset_fresh[of 41 ?s] obtain x where
    f: "fst (reset 41 ?s) = Inr (Redirect url_for_index)"
    and x: "snd (reset 41 ?s) = game x 0 [] False" "MIN_NUM \<le> x" "x \<le> MAX_NUM"
    by blast
  from x(1) e have "x = 42" by (simp add: game_def)
  with f x e show ?thesis by (simp add: url_for_index_def)
qed

text \<open>
  C7. The secret is fixed while the session lives: on a session that has a secret,
  \<open>guess\<close> leaves the secret as it is for every input and every state of the other
  keys, and so does every request other than a reset. A new secret is assigned by
  \<open>init_game\<close> only, which runs on a reset or when the session has no secret yet.
\<close>

theorem secret_fixed:
  assumes "secret s = Some x"
  shows "secret (snd (guess form rnd s)) = Some x
       \<and> (rq \<noteq> Post_reset \<longrightarrow> secret (snd (handle rq rnd s)) = Some x)"
proof -
  have g: "secret (snd (guess f rnd s)) = Some x" for f
    using guess_secret[OF assms] .
  have i: "secret (snd (index rnd s)) = Some x"
    using assms by (simp add: index_def Let_def)
  show ?thesis using g i by (cases rq) simp_all
qed

theorem secret_fixed_witness:
  "secret (game 42 1 [10] False) = Some 42
   \<and> secret (snd (guess (Some ''70'') 5 (game 42 1 [10] False))) = Some 42
   \<and> Get_index \<noteq> Post_reset
   \<and> secret (snd (handle Get_index 5 (game 42 1 [10] False))) = Some 42"
proof -
  have h: "secret (game 42 1 [10] False) = Some 42" by (simp add: game_def)
  show ?thesis
    using h secret_fixed[OF h, of "Some ''70''" 5 Get_index] by simp
qed

text \<open>
  C8. On a session that exists (it has a secret), the index view renders the current
  state: the remaining attempts, the history and the finished flag, with no message;
  and it returns the session as it was. It starts a fresh game only when the session
  has no secret.
\<close>

theorem index_view:
  "(secret s \<noteq> None \<longrightarrow>
      index rnd s =
        (Inr (Render \<lparr>t_remaining = MAX_ATTEMPTS - get_attempts s,
                      t_message = None,
                      t_alert_type = ''info'',
                      t_finished = get_finished s,
                      t_secret = secret s,
                      t_history = history s\<rparr>), s))
   \<and> (secret s = None \<longrightarrow> snd (index rnd s) = init_game rnd s)"
  using index_existing[of s rnd] by (simp add: index_def Let_def)

theorem index_view_witness:
  "secret (game 42 2 [10, 70] False) \<noteq> None
   \<and> index 5 (game 42 2 [10, 70] False) =
        (Inr (Render \<lparr>t_remaining = 8,
                      t_message = None,
                      t_alert_type = ''info'',
                      t_finished = False,
                      t_secret = Some 42,
                      t_history = Some [10, 70]\<rparr>), game 42 2 [10, 70] False)
   \<and> secret empty_session = None
   \<and> snd (index 41 empty_session) = game 42 0 [] False"
proof -
  have r: "randint MIN_NUM MAX_NUM 41 = 42" by code_simp
  have h1: "secret (game 42 2 [10, 70] False) \<noteq> None" by (simp add: game_def)
  have h2: "secret empty_session = None" by (simp add: empty_session_def)
  from index_view[of "game 42 2 [10, 70] False" 5] h1
  have c1: "index 5 (game 42 2 [10, 70] False) =
        (Inr (Render \<lparr>t_remaining = 8,
                      t_message = None,
                      t_alert_type = ''info'',
                      t_finished = False,
                      t_secret = Some 42,
                      t_history = Some [10, 70]\<rparr>), game 42 2 [10, 70] False)"
    by (simp add: game_def get_attempts_def get_finished_def MAX_ATTEMPTS_def)
  from index_view[of empty_session 41] h2
  have c2: "snd (index 41 empty_session) = game 42 0 [] False"
    by (simp add: init_game_eq r)
  show ?thesis using h1 h2 c1 c2 by simp
qed

text \<open>
  C9. On a session that is finished, \<open>guess\<close> does nothing to the state: for every
  submitted form, parsable or not, it answers with the redirect to the index page and
  returns the session as it was, so no guess made after the end of the game is counted
  or recorded.
\<close>

theorem guess_after_finish_noop:
  assumes "secret s \<noteq> None" and "finished s = Some True"
  shows "guess form rnd s = (Inr (Redirect url_for_index), s)"
  using guess_finished[OF assms] .

theorem guess_after_finish_noop_witness:
  "secret (game 42 3 [10, 70, 42] True) \<noteq> None
   \<and> finished (game 42 3 [10, 70, 42] True) = Some True
   \<and> guess (Some ''55'') 5 (game 42 3 [10, 70, 42] True)
       = (Inr (Redirect ''/''), game 42 3 [10, 70, 42] True)"
proof -
  have h1: "secret (game 42 3 [10, 70, 42] True) \<noteq> None" by (simp add: game_def)
  have h2: "finished (game 42 3 [10, 70, 42] True) = Some True" by (simp add: game_def)
  show ?thesis
    using h1 h2 guess_after_finish_noop[OF h1 h2, of "Some ''55''" 5]
    by (simp add: url_for_index_def)
qed

text \<open>
  C10. In every session reached from a fresh game by any sequence of index, guess and
  reset requests, the attempt counter is between 0 and \<open>MAX_ATTEMPTS\<close>, and it is
  below \<open>MAX_ATTEMPTS\<close> while the game is not finished.
\<close>

theorem attempts_bounded:
  "\<exists>a f. attempts (snd (run reqs (init_game rnd s))) = Some a
        \<and> finished (snd (run reqs (init_game rnd s))) = Some f
        \<and> 0 \<le> a \<and> a \<le> MAX_ATTEMPTS \<and> (\<not> f \<longrightarrow> a < MAX_ATTEMPTS)"
proof -
  have "session_inv (snd (run reqs (init_game rnd s)))"
    by (rule inv_run) (rule inv_init_game)
  then show ?thesis
    unfolding session_inv_iff by (auto simp: game_def)
qed

theorem attempts_bounded_witness:
  "attempts (snd (run [(Post_guess (Some ''10''), 0), (Get_index, 0), (Post_guess (Some ''x''), 0)]
                   (init_game 41 empty_session))) = Some 1
   \<and> finished (snd (run [(Post_guess (Some ''10''), 0), (Get_index, 0), (Post_guess (Some ''x''), 0)]
                   (init_game 41 empty_session))) = Some False
   \<and> (1::int) < MAX_ATTEMPTS"
proof -
  let ?s = "snd (run [(Post_guess (Some ''10''), 0), (Get_index, 0), (Post_guess (Some ''x''), 0)]
                   (init_game 41 empty_session))"
  have e: "attempts ?s = Some 1" "finished ?s = Some False" by code_simp+
  from attempts_bounded[of "[(Post_guess (Some ''10''), 0), (Get_index, 0), (Post_guess (Some ''x''), 0)]" 41 empty_session]
  obtain a f where "attempts ?s = Some a" "finished ?s = Some f" "\<not> f \<longrightarrow> a < MAX_ATTEMPTS"
    by blast
  with e have "(1::int) < MAX_ATTEMPTS" by simp
  with e show ?thesis by simp
qed

end
